theory Spec2Isabelle
  imports Complex_Main "HOL-Library.Word"
begin

unbundle bit_operations_syntax

section \<open>Data model\<close>

text \<open>
  JavaScript numbers are modelled as \<^typ>\<open>real\<close>: the arithmetic of the game is read
  as exact arithmetic, IEEE rounding is not part of the model. The 32-bit state of the
  random number generator is a \<^typ>\<open>32 word\<close>. Objects that the code shares by
  reference (warriors) live in a store indexed by a reference; records of the store are
  replaced where the code assigns to a field.
\<close>

subsection \<open>Warrior.ts\<close>

datatype WarriorColor = Red | Blue | Green | Yellow

datatype BoosterEffect = NoEffect | Glove | Shield

record Warrior =
  idW :: int
  color :: WarriorColor
  isPlayer :: bool
  px :: real
  py :: real
  vx :: real
  vy :: real
  speed :: real
  hp :: real
  alive :: bool
  rotationRad :: real
  weaponX :: real
  weaponY :: real
  boosterEffect :: BoosterEffect
  healPulse :: bool
  healPulseTimer :: real
  alpha :: real
  dying :: bool

text \<open>The constructor, with its configuration object spread into arguments.\<close>

definition Warrior_new ::
  "int \<Rightarrow> WarriorColor \<Rightarrow> bool \<Rightarrow> real \<Rightarrow> real \<Rightarrow> real \<Rightarrow> real \<Rightarrow> real \<Rightarrow> Warrior" where
  "Warrior_new cid ccolor cisPlayer cpx cpy cvx cvy cspeed =
     \<lparr>idW = cid, color = ccolor, isPlayer = cisPlayer, px = cpx, py = cpy, vx = cvx,
      vy = cvy, speed = cspeed, hp = 100, alive = True,
      rotationRad = of_int cid * (pi * 2 / 4), weaponX = 0, weaponY = 0,
      boosterEffect = NoEffect, healPulse = False, healPulseTimer = 0, alpha = 1,
      dying = False\<rparr>"

definition WARRIOR_RADIUS :: real where
  "WARRIOR_RADIUS = 22"

definition WEAPON_RADIUS :: real where
  "WEAPON_RADIUS = 8"

definition WEAPON_OFFSET :: real where
  "WEAPON_OFFSET = 0.8 * WARRIOR_RADIUS"

definition updateWeaponPos :: "Warrior \<Rightarrow> Warrior" where
  "updateWeaponPos w =
     w\<lparr>weaponX := px w + cos (rotationRad w) * WEAPON_OFFSET,
       weaponY := py w + sin (rotationRad w) * WEAPON_OFFSET\<rparr>"

definition takeDamage :: "real \<Rightarrow> Warrior \<Rightarrow> Warrior" where
  "takeDamage amount w =
     (if \<not> alive w \<or> dying w then w
      else if hp w - amount \<le> 0 then w\<lparr>hp := 0, dying := True\<rparr>
      else w\<lparr>hp := hp w - amount\<rparr>)"

definition healHP :: "real \<Rightarrow> Warrior \<Rightarrow> Warrior" where
  "healHP amount w = w\<lparr>hp := min 100 (hp w + amount)\<rparr>"

text \<open>References to warrior objects, and the store that holds the objects.\<close>

type_synonym wref = nat

type_synonym wstore = "wref \<Rightarrow> Warrior"

subsection \<open>Combat.ts: events\<close>

datatype CollisionType = weapon_body | body_body | weapon_weapon | none_type

record DamageEvent =
  attacker :: wref
  victim :: wref
  etype :: CollisionType
  damage :: real

subsection \<open>Economy.ts\<close>

definition BET_AMOUNT :: real where
  "BET_AMOUNT = 10"

definition BOOSTER_COST :: real where
  "BOOSTER_COST = 1"

definition WEAPON_REWARD :: real where
  "WEAPON_REWARD = 1.0"

definition DAMAGE_PENALTY :: real where
  "DAMAGE_PENALTY = 0.8"

definition WIN_MULTIPLIER :: real where
  "WIN_MULTIPLIER = 1.5"

definition WIN_BONUS_NET :: real where
  "WIN_BONUS_NET = BET_AMOUNT * 0.5"

record Economy =
  balance :: real
  roundProfit :: real
  finalProfit :: real

definition Economy_new :: "real \<Rightarrow> Economy" where
  "Economy_new initialBalance =
     \<lparr>balance = initialBalance, roundProfit = 0, finalProfit = 0\<rparr>"

definition canAffordRound :: "bool \<Rightarrow> Economy \<Rightarrow> bool" where
  "canAffordRound hasBooster e =
     (let cost = BET_AMOUNT + (if hasBooster then BOOSTER_COST else 0)
      in balance e \<ge> cost)"

definition startRound :: "bool \<Rightarrow> Economy \<Rightarrow> Economy" where
  "startRound hasBooster e =
     (let cost = BET_AMOUNT + (if hasBooster then BOOSTER_COST else 0)
      in e\<lparr>balance := balance e - cost, roundProfit := 0, finalProfit := 0\<rparr>)"

text \<open>The event is read through the store: \<open>ev.attacker.isPlayer\<close>, \<open>ev.victim.isPlayer\<close>.\<close>

definition processDamageEvent :: "wstore \<Rightarrow> DamageEvent \<Rightarrow> Economy \<Rightarrow> Economy" where
  "processDamageEvent st ev e =
     (let e1 = (if isPlayer (st (attacker ev)) \<and> etype ev = weapon_body
                then e\<lparr>roundProfit := roundProfit e + WEAPON_REWARD\<rparr> else e)
      in if isPlayer (st (victim ev))
         then e1\<lparr>roundProfit := roundProfit e1 - DAMAGE_PENALTY\<rparr> else e1)"

text \<open>The driver's loop \<open>for (const ev of applied) economy.processDamageEvent(ev)\<close>.\<close>

definition processDamageEvents :: "wstore \<Rightarrow> DamageEvent list \<Rightarrow> Economy \<Rightarrow> Economy" where
  "processDamageEvents st evs e = foldl (\<lambda>e' ev. processDamageEvent st ev e') e evs"

definition finaliseRound :: "bool \<Rightarrow> Economy \<Rightarrow> Economy" where
  "finaliseRound win e =
     (let profitPart = (if win \<and> roundProfit e > 0
                        then roundProfit e * WIN_MULTIPLIER else roundProfit e);
          fp = (if win then profitPart + WIN_BONUS_NET else profitPart);
          b = balance e + fp
      in e\<lparr>finalProfit := fp, balance := (if b < 0 then 0 else b)\<rparr>)"

subsection \<open>Rng.ts\<close>

text \<open>
  Mulberry32. \<open>Math.imul\<close> is multiplication modulo \<open>2^32\<close>, \<open>>>> k\<close> is the logical
  shift and \<open>>>> 0\<close> reads the 32 bits as unsigned, so the state and the temporaries are
  32-bit words. A seed is an integer, and \<open>seed >>> 0\<close> is its residue modulo \<open>2^32\<close>.
  Without a seed the constructor draws the state from \<open>Math.random\<close>; that draw,
  already converted to 32 bits, is the parameter \<open>entropy\<close>.
\<close>

record Rng =
  state :: "32 word"

definition Rng_new :: "int option \<Rightarrow> 32 word \<Rightarrow> Rng" where
  "Rng_new seed entropy =
     \<lparr>state = (case seed of Some s \<Rightarrow> word_of_int s | None \<Rightarrow> entropy)\<rparr>"

definition Rng_next :: "Rng \<Rightarrow> real \<times> Rng" where
  "Rng_next r =
     (let s = state r + 1831565813;
          t1 = (s XOR drop_bit 15 s) * (1 OR s);
          t2 = t1 + (t1 XOR drop_bit 7 t1) * (61 OR t1)
      in (real (unat (t2 XOR drop_bit 14 t2)) / 4294967296, r\<lparr>state := s\<rparr>))"

definition Rng_int :: "real \<Rightarrow> real \<Rightarrow> Rng \<Rightarrow> real \<times> Rng" where
  "Rng_int mn mx r =
     (let (x, r') = Rng_next r in (of_int \<lfloor>x * (mx - mn + 1)\<rfloor> + mn, r'))"

definition Rng_float :: "real \<Rightarrow> real \<Rightarrow> Rng \<Rightarrow> real \<times> Rng" where
  "Rng_float mn mx r = (let (x, r') = Rng_next r in (x * (mx - mn) + mn, r'))"

definition Rng_angle :: "Rng \<Rightarrow> real \<times> Rng" where
  "Rng_angle r = (let (x, r') = Rng_next r in (x * pi * 2, r'))"

definition getSeed :: "Rng \<Rightarrow> 32 word" where
  "getSeed r = state r"

text \<open>
  A call site is one of the four drawing methods with its arguments; a program's use of
  an instance is the list of its calls, run in order on the instance.
\<close>

datatype RngCall = CallNext | CallInt real real | CallFloat real real | CallAngle

fun Rng_call :: "RngCall \<Rightarrow> Rng \<Rightarrow> real \<times> Rng" where
  "Rng_call CallNext r = Rng_next r"
| "Rng_call (CallInt mn mx) r = Rng_int mn mx r"
| "Rng_call (CallFloat mn mx) r = Rng_float mn mx r"
| "Rng_call CallAngle r = Rng_angle r"

fun Rng_run :: "RngCall list \<Rightarrow> Rng \<Rightarrow> real list \<times> Rng" where
  "Rng_run [] r = ([], r)"
| "Rng_run (c # cs) r =
     (let (x, r1) = Rng_call c r; (xs, r2) = Rng_run cs r1 in (x # xs, r2))"

subsection \<open>OutcomeController.ts\<close>

record OutcomeParams =
  playerWeaponAssist :: real
  playerDealBonusDamage :: real
  playerTakeDamageDelta :: real
  playerSpeedMul :: real
  targetWin :: bool

definition WIN_PARAMS :: OutcomeParams where
  "WIN_PARAMS = \<lparr>playerWeaponAssist = 0.05, playerDealBonusDamage = 1,
     playerTakeDamageDelta = -1, playerSpeedMul = 1.02, targetWin = True\<rparr>"

definition LOSE_PARAMS :: OutcomeParams where
  "LOSE_PARAMS = \<lparr>playerWeaponAssist = -0.07, playerDealBonusDamage = -1,
     playerTakeDamageDelta = 2, playerSpeedMul = 0.98, targetWin = False\<rparr>"

definition NEUTRAL_PARAMS :: OutcomeParams where
  "NEUTRAL_PARAMS = \<lparr>playerWeaponAssist = 0, playerDealBonusDamage = 0,
     playerTakeDamageDelta = 0, playerSpeedMul = 1.0, targetWin = False\<rparr>"

definition sampleParams :: "real \<Rightarrow> Rng \<Rightarrow> OutcomeParams \<times> Rng" where
  "sampleParams winProbability r =
     (let (x, r') = Rng_next r in (if x < winProbability then WIN_PARAMS else LOSE_PARAMS, r'))"

subsection \<open>Physics.ts\<close>

record CollisionPair =
  pair_a :: wref
  pair_b :: wref

definition distSq :: "real \<Rightarrow> real \<Rightarrow> real \<Rightarrow> real \<Rightarrow> real" where
  "distSq ax ay bx byy = (let dx = ax - bx; dy = ay - byy in dx * dx + dy * dy)"

text \<open>The body of the loop of \<open>integrateMotion\<close>, on one warrior object.\<close>

definition integrateOne :: "real \<Rightarrow> Warrior \<Rightarrow> Warrior" where
  "integrateOne dt w =
     (if \<not> alive w then w
      else updateWeaponPos (w\<lparr>px := px w + vx w * dt, py := py w + vy w * dt\<rparr>))"

fun integrateMotion :: "wref list \<Rightarrow> real \<Rightarrow> wstore \<Rightarrow> wstore" where
  "integrateMotion [] dt st = st"
| "integrateMotion (r # rs) dt st = integrateMotion rs dt (st(r := integrateOne dt (st r)))"

text \<open>
  The list that both drivers pass to \<open>integrateMotion\<close>:
  \<open>warriors.filter(w => w.alive && !w.dying)\<close>.
\<close>

definition aliveNotDying :: "wref list \<Rightarrow> wstore \<Rightarrow> wref list" where
  "aliveNotDying ws st = filter (\<lambda>r. alive (st r) \<and> \<not> dying (st r)) ws"

subsection \<open>Combat.ts\<close>

definition COOLDOWN_MS :: real where
  "COOLDOWN_MS = 120"

text \<open>
  The key \<open>`${min}_${max}`\<close> of the cooldown table is the pair of the two numbers it
  prints; the table maps keys to the time of the last contact that passed the cooldown.
\<close>

type_synonym cooldowns = "int \<times> int \<rightharpoonup> real"

definition pairKey :: "Warrior \<Rightarrow> Warrior \<Rightarrow> int \<times> int" where
  "pairKey wa wb = (min (idW wa) (idW wb), max (idW wa) (idW wb))"

definition clearCooldowns :: "cooldowns \<Rightarrow> cooldowns" where
  "clearCooldowns cd = Map.empty"

record ClassifyResult =
  rtype :: CollisionType
  attackerIsA :: bool

text \<open>\<open>Math.round\<close>: the nearest integer, a tie going up.\<close>

definition js_round :: "real \<Rightarrow> real" where
  "js_round x = of_int \<lfloor>x + 1 / 2\<rfloor>"

text \<open>
  The closure \<open>rng\<close> is a function on its own state \<open>g\<close>, returning the number drawn and
  the state after the draw; the classifier calls it at most once. The three overlaps are
  bound to \<open>oAB\<close>, \<open>oBA\<close> and \<open>oWW\<close>; the variables \<open>best\<close>, \<open>bestOverlap\<close> and
  \<open>attackerIsA\<close> are numbered by the assignments that have run.
\<close>

definition overlapWaBodyB :: "Warrior \<Rightarrow> Warrior \<Rightarrow> real" where
  "overlapWaBodyB wa wb =
     (WEAPON_RADIUS + WARRIOR_RADIUS) - sqrt (distSq (weaponX wa) (weaponY wa) (px wb) (py wb))"

definition overlapWbBodyA :: "Warrior \<Rightarrow> Warrior \<Rightarrow> real" where
  "overlapWbBodyA wa wb =
     (WEAPON_RADIUS + WARRIOR_RADIUS) - sqrt (distSq (weaponX wb) (weaponY wb) (px wa) (py wa))"

definition overlapWaWb :: "Warrior \<Rightarrow> Warrior \<Rightarrow> real" where
  "overlapWaWb wa wb =
     (WEAPON_RADIUS + WEAPON_RADIUS)
       - sqrt (distSq (weaponX wa) (weaponY wa) (weaponX wb) (weaponY wb))"

definition classifyCollision ::
  "Warrior \<Rightarrow> Warrior \<Rightarrow> OutcomeParams \<Rightarrow> ('r \<Rightarrow> real \<times> 'r) \<Rightarrow> 'r \<Rightarrow> ClassifyResult \<times> 'r" where
  "classifyCollision wa wb params rng g =
     (let oAB = overlapWaBodyB wa wb;
          oBA = overlapWbBodyA wa wb;
          oWW = overlapWaWb wa wb;
          (best0, bestOverlap0, att0) = (body_body, 0, True);
          (best1, bestOverlap1, att1) =
             (if oAB > bestOverlap0 then (weapon_body, oAB, True)
              else (best0, bestOverlap0, att0));
          (best2, bestOverlap2, att2) =
             (if oBA > bestOverlap1 then (weapon_body, oBA, False)
              else (best1, bestOverlap1, att1));
          (best, att) =
             (if oWW > bestOverlap2 then (weapon_weapon, True) else (best2, att2));
          involvePlayer = (isPlayer wa \<or> isPlayer wb)
      in if involvePlayer \<and> best \<noteq> weapon_weapon then
           (let assist = playerWeaponAssist params; (x, g') = rng g
            in if x < \<bar>assist\<bar> then
                 (if assist > 0 then
                    (if isPlayer wa \<and> oAB > 0
                       then (\<lparr>rtype = weapon_body, attackerIsA = True\<rparr>, g')
                     else if isPlayer wb \<and> oBA > 0
                       then (\<lparr>rtype = weapon_body, attackerIsA = False\<rparr>, g')
                     else (\<lparr>rtype = best, attackerIsA = att\<rparr>, g'))
                  else (\<lparr>rtype = body_body, attackerIsA = True\<rparr>, g'))
               else (\<lparr>rtype = best, attackerIsA = att\<rparr>, g'))
         else (\<lparr>rtype = best, attackerIsA = att\<rparr>, g))"

text \<open>\<open>pairCooldowns.get(key) ?? 0\<close>.\<close>

definition lastContact :: "cooldowns \<Rightarrow> int \<times> int \<Rightarrow> real" where
  "lastContact cd key = (case cd key of Some t \<Rightarrow> t | None \<Rightarrow> 0)"

text \<open>
  \<open>processCollision\<close> reads the two warriors of the pair in the store, and reads and
  writes the module's cooldown table and the state of the closure \<open>rng\<close>.
\<close>

definition processCollision ::
  "wstore \<Rightarrow> CollisionPair \<Rightarrow> real \<Rightarrow> OutcomeParams \<Rightarrow> ('r \<Rightarrow> real \<times> 'r) \<Rightarrow> cooldowns \<times> 'r
     \<Rightarrow> DamageEvent list \<times> cooldowns \<times> 'r" where
  "processCollision st pair now params rng cg =
     (let (cd, g) = cg; ra = pair_a pair; rb = pair_b pair;
          key = pairKey (st ra) (st rb);
          lastT = lastContact cd key
      in if now - lastT < COOLDOWN_MS then ([], cd, g)
         else
           (let cd' = cd(key \<mapsto> now);
                (res, g') = classifyCollision (st ra) (st rb) params rng g;
                ty = rtype res
            in if ty = none_type \<or> ty = weapon_weapon then ([], cd', g')
               else if ty = weapon_body then
                 (let att = (if attackerIsA res then ra else rb);
                      vic = (if attackerIsA res then rb else ra);
                      dmg0 = max 1 (min 40 (25 + playerDealBonusDamage params
                                               * (if isPlayer (st att) then 1 else 0)));
                      dmg = (if isPlayer (st vic)
                             then max 1 (dmg0 + playerTakeDamageDelta params) else dmg0)
                  in ([\<lparr>attacker = att, victim = vic, etype = ty, damage = dmg\<rparr>], cd', g'))
               else if ty = body_body then
                 (let dmg = js_round (max 1 (min 25 (10 + playerTakeDamageDelta params * 0.5)))
                  in ([\<lparr>attacker = ra, victim = rb, etype = ty, damage = dmg\<rparr>,
                       \<lparr>attacker = rb, victim = ra, etype = ty, damage = dmg\<rparr>], cd', g'))
               else ([], cd', g')))"

text \<open>
  A sequence of calls of \<open>processCollision\<close>, as the physics steps of a round make
  them: each call with the store, the pair, the time and the parameters it is given. The
  cooldown table and the state of the closure go from one call to the next.
\<close>

record Contact =
  cstore :: wstore
  cpair :: CollisionPair
  cnow :: real
  cparams :: OutcomeParams

definition contactKey :: "Contact \<Rightarrow> int \<times> int" where
  "contactKey c = pairKey (cstore c (pair_a (cpair c))) (cstore c (pair_b (cpair c)))"

definition processContact ::
  "('r \<Rightarrow> real \<times> 'r) \<Rightarrow> Contact \<Rightarrow> cooldowns \<times> 'r \<Rightarrow> DamageEvent list \<times> cooldowns \<times> 'r" where
  "processContact rng c cg = processCollision (cstore c) (cpair c) (cnow c) (cparams c) rng cg"

fun processContacts ::
  "('r \<Rightarrow> real \<times> 'r) \<Rightarrow> Contact list \<Rightarrow> cooldowns \<times> 'r \<Rightarrow> cooldowns \<times> 'r" where
  "processContacts rng [] cg = cg"
| "processContacts rng (c # cs) cg = processContacts rng cs (snd (processContact rng c cg))"

text \<open>
  The loop of \<open>applyDamageEvents\<close>: the events in order, the list \<open>applied\<close> and the store
  carried along. An event whose victim is the shielded player is skipped by \<open>continue\<close>.
\<close>

fun applyLoop :: "DamageEvent list \<Rightarrow> DamageEvent list \<times> wstore \<Rightarrow> DamageEvent list \<times> wstore" where
  "applyLoop [] (applied, st) = (applied, st)"
| "applyLoop (ev # evs) (applied, st) =
     (if isPlayer (st (victim ev)) \<and> boosterEffect (st (victim ev)) = Shield then
        applyLoop evs (applied, st(victim ev := (st (victim ev))\<lparr>boosterEffect := NoEffect\<rparr>))
      else
        (let gl = (isPlayer (st (attacker ev)) \<and> boosterEffect (st (attacker ev)) = Glove
                     \<and> etype ev = weapon_body);
             dmg = (if gl then damage ev + 10 else damage ev);
             st1 = (if gl then st(attacker ev := (st (attacker ev))\<lparr>boosterEffect := NoEffect\<rparr>)
                    else st);
             st2 = st1(victim ev := takeDamage dmg (st1 (victim ev)))
         in applyLoop evs (applied @ [ev\<lparr>damage := dmg\<rparr>], st2)))"

definition applyDamageEvents :: "DamageEvent list \<Rightarrow> wstore \<Rightarrow> DamageEvent list \<times> wstore" where
  "applyDamageEvents events st = applyLoop events ([], st)"

subsection \<open>Boosters.ts\<close>

datatype BoosterType = burger | glove | shield

text \<open>
  \<open>applyBooster\<close> on the player's object and the type of the pickup; the message it
  returns for the display is left out.
\<close>

definition applyBooster :: "wref \<Rightarrow> BoosterType \<Rightarrow> wstore \<Rightarrow> wstore" where
  "applyBooster player btype st =
     (case btype of
        burger \<Rightarrow> st(player := (healHP 10 (st player))\<lparr>healPulse := True, healPulseTimer := 600\<rparr>)
      | glove \<Rightarrow> st(player := (st player)\<lparr>boosterEffect := Glove\<rparr>)
      | shield \<Rightarrow> st(player := (st player)\<lparr>boosterEffect := Shield\<rparr>))"

subsection \<open>Game.startRound\<close>

text \<open>
  The fields of the game that \<open>startRound\<close> assigns before it spawns the warriors and
  refreshes the panel; the random number generator, the warriors and the display are
  not part of this model. The module's cooldown table is kept with the game.
\<close>

datatype GameState = ready | running | win | lose

record Game =
  economy :: Economy
  gstate :: GameState
  selectedBoosterType :: "BoosterType option"
  boostersBought :: "BoosterType \<Rightarrow> nat"
  speedupActive :: bool
  pairCooldowns :: cooldowns

definition Game_startRound :: "Game \<Rightarrow> Game" where
  "Game_startRound gm =
     (let hasBooster = (selectedBoosterType gm \<noteq> None)
      in if \<not> canAffordRound hasBooster (economy gm) then gm
         else gm\<lparr>economy := startRound hasBooster (economy gm),
                 pairCooldowns := clearCooldowns (pairCooldowns gm),
                 boostersBought :=
                   (case selectedBoosterType gm of
                      None \<Rightarrow> (\<lambda>t. 0)
                    | Some t \<Rightarrow> (\<lambda>t'. if t' = t then 1 else 0)),
                 speedupActive := False,
                 gstate := running\<rparr>)"

section \<open>Concrete rounds\<close>

text \<open>
  Two warriors on one horizontal line, the player (reference 0, id 0) on the left and an
  opponent (reference 1, id 1) on the right, 40 apart, so that the bodies overlap. Each
  is turned to the right (rotation 0) or to the left (rotation of a half turn), and its
  weapon position is computed by \<open>updateWeaponPos\<close>: 17.6 to the right or to the left of
  its centre.
\<close>

definition player0 :: Warrior where
  "player0 = Warrior_new 0 Red True 100 100 120 0 120"

definition opponent1 :: Warrior where
  "opponent1 = Warrior_new 1 Blue False 140 100 (-120) 0 120"

definition facing :: "Warrior \<Rightarrow> bool \<Rightarrow> Warrior" where
  "facing w right = updateWeaponPos (w\<lparr>rotationRad := (if right then 0 else pi)\<rparr>)"

definition side :: "bool \<Rightarrow> real" where
  "side right = (if right then 17.6 else - 17.6)"

definition duel :: "bool \<Rightarrow> bool \<Rightarrow> wstore" where
  "duel right0 right1 r = (if r = 0 then facing player0 right0 else facing opponent1 right1)"

definition pair01 :: CollisionPair where
  "pair01 = \<lparr>pair_a = 0, pair_b = 1\<rparr>"

definition pair10 :: CollisionPair where
  "pair10 = \<lparr>pair_a = 1, pair_b = 0\<rparr>"

definition contactAt :: "bool \<Rightarrow> bool \<Rightarrow> CollisionPair \<Rightarrow> real \<Rightarrow> OutcomeParams \<Rightarrow> Contact" where
  "contactAt off0 off1 p t params =
     \<lparr>cstore = duel off0 off1, cpair = p, cnow = t, cparams = params\<rparr>"

definition bodyContact :: "DamageEvent list" where
  "bodyContact = [\<lparr>attacker = 0, victim = 1, etype = body_body, damage = 10\<rparr>,
                  \<lparr>attacker = 1, victim = 0, etype = body_body, damage = 10\<rparr>]"

definition playerHitEv :: DamageEvent where
  "playerHitEv = \<lparr>attacker = 0, victim = 1, etype = weapon_body, damage = 26\<rparr>"

definition playerHit :: "DamageEvent list" where
  "playerHit = [playerHitEv]"

definition shielded :: wstore where
  "shielded = applyBooster 0 shield (duel True True)"

definition gloved :: wstore where
  "gloved = applyBooster 0 glove (duel True True)"

definition opponentHit :: DamageEvent where
  "opponentHit = \<lparr>attacker = 1, victim = 0, etype = weapon_body, damage = 27\<rparr>"

text \<open>The duel after the opponent has died and faded out, and after a hit has felled the player.\<close>

definition opponentDead :: wstore where
  "opponentDead = (duel True True)(1 := (duel True True 1)\<lparr>hp := 0, alive := False, alpha := 0, dying := True\<rparr>)"

definition playerDying :: wstore where
  "playerDying = (duel True True)(0 := takeDamage 100 (duel True True 0))"

definition poorGame :: Game where
  "poorGame = \<lparr>economy = Economy_new 5, gstate = ready, selectedBoosterType = None,
     boostersBought = (\<lambda>t. 0), speedupActive = False, pairCooldowns = Map.empty\<rparr>"

section \<open>Economy: the payout on a win\<close>

lemma finaliseRound_finalProfit:
  "finalProfit (finaliseRound True e) =
     (if roundProfit e > 0 then roundProfit e * 1.5 + 5 else roundProfit e + 5)"
  by (simp add: finaliseRound_def WIN_MULTIPLIER_def WIN_BONUS_NET_def BET_AMOUNT_def Let_def)

lemma finaliseRound_win_positive_iff:
  "0 < finalProfit (finaliseRound True e) \<longleftrightarrow> - 5 < roundProfit e"
  by (cases "0 < roundProfit e") (auto simp: finaliseRound_finalProfit)

lemma processDamageEvents_append:
  "processDamageEvents st (xs @ ys) e = processDamageEvents st ys (processDamageEvents st xs e)"
  by (simp add: processDamageEvents_def)

lemma duel_isPlayer: "isPlayer (duel off0 off1 r) = (r = 0)"
  by (simp add: duel_def facing_def updateWeaponPos_def player0_def opponent1_def Warrior_new_def)

lemma bodyContact_cost:
  "processDamageEvents (duel off0 off1) bodyContact e = e\<lparr>roundProfit := roundProfit e - 0.8\<rparr>"
  by (simp add: processDamageEvents_def bodyContact_def processDamageEvent_def duel_isPlayer
      DAMAGE_PENALTY_def)

lemma playerHit_reward:
  "processDamageEvents (duel off0 off1) playerHit e = e\<lparr>roundProfit := roundProfit e + 1\<rparr>"
  by (simp add: processDamageEvents_def playerHit_def playerHitEv_def processDamageEvent_def
      duel_isPlayer WEAPON_REWARD_def)

text \<open>
  C1. The claim is that \<open>finaliseRound(true)\<close> leaves a strictly positive final profit
  whatever the round profit is, as the comments of the code promise. The code adds the
  bonus of 5 to a negative round profit unchanged, so the final profit is positive only
  for a round profit above -5. A round can end below that: the player takes eight
  body-to-body contacts (0.8 each) and then lands the weapon hit that wins the round
  (+1), for a round profit of -5.4 and a final profit of -0.4 on a win.
\<close>

theorem finaliseRound_win_not_positive:
  "finalProfit (finaliseRound True
     (processDamageEvents (duel True True)
        (bodyContact @ bodyContact @ bodyContact @ bodyContact @ bodyContact @ bodyContact
           @ bodyContact @ bodyContact @ playerHit)
        (startRound False (Economy_new 1000)))) = - 0.4"
  by (simp add: processDamageEvents_append bodyContact_cost playerHit_reward
      finaliseRound_finalProfit startRound_def Economy_new_def)

section \<open>Rng: the sequence is a function of the seed\<close>

lemma Rng_next_state: "snd (Rng_next r) = r\<lparr>state := state r + 1831565813\<rparr>"
  by (simp add: Rng_next_def Let_def)

lemma Rng_call_state: "snd (Rng_call c r) = snd (Rng_next r)"
  by (cases c) (simp_all add: Rng_int_def Rng_float_def Rng_angle_def split_beta)

lemma Rng_run_state:
  "snd (Rng_run cs r) = r\<lparr>state := state r + of_nat (length cs) * 1831565813\<rparr>"
proof (induction cs arbitrary: r)
  case Nil
  show ?case by simp
next
  case (Cons c cs)
  have "snd (Rng_run (c # cs) r) = snd (Rng_run cs (snd (Rng_call c r)))"
    by (simp add: split_beta)
  then show ?case
    by (simp add: Cons.IH Rng_call_state Rng_next_state algebra_simps)
qed

lemma word32_unit_interval:
  "0 \<le> real (unat w) / 4294967296 \<and> real (unat w) / 4294967296 < 1" for w :: "32 word"
proof -
  have "unat w < 2 ^ LENGTH(32)"
    by (rule unsigned_less)
  then have "unat w < 4294967296"
    by simp
  then have "real (unat w) < 4294967296"
    by linarith
  moreover have "0 \<le> real (unat w)"
    by (rule of_nat_0_le_iff)
  ultimately show ?thesis
    by (simp del: of_nat_unat)
qed

lemma Rng_next_range: "0 \<le> fst (Rng_next r) \<and> fst (Rng_next r) < 1"
  unfolding Rng_next_def Let_def fst_conv by (rule word32_unit_interval)

lemma Rng_new_seeded: "Rng_new (Some s) e1 = Rng_new (Some s) e2"
  by (simp add: Rng_new_def)

text \<open>
  C2. Two instances built from the same seed \<open>s\<close> (whatever \<open>Math.random\<close> would have
  given each of them) return the same values and end in the same state under the same
  list of calls. The value that the next call of \<open>next\<close> returns after a list of calls
  depends only on the seed and on the number of calls made, not on which of \<open>next\<close>,
  \<open>int\<close>, \<open>float\<close> and \<open>angle\<close> they were. Every value of \<open>next\<close> is in [0, 1).
\<close>

theorem Rng_same_seed_same_sequence:
  "Rng_run cs (Rng_new (Some s) e1) = Rng_run cs (Rng_new (Some s) e2)
   \<and> Rng_next (snd (Rng_run cs (Rng_new (Some s) e1)))
       = Rng_next (snd (Rng_run (replicate (length cs) CallNext) (Rng_new (Some s) e2)))
   \<and> 0 \<le> fst (Rng_next r) \<and> fst (Rng_next r) < 1"
  using Rng_next_range [of r] Rng_new_seeded [of s e1 e2]
  by (simp add: Rng_run_state)

section \<open>Game.startRound: the balance check\<close>

lemma startRound_deducts:
  "balance (startRound hasBooster e) = balance e - (if hasBooster then 11 else 10)"
  by (simp add: startRound_def BET_AMOUNT_def BOOSTER_COST_def)

lemma Game_startRound_affordable:
  "canAffordRound (selectedBoosterType gm \<noteq> None) (economy gm) \<Longrightarrow>
     economy (Game_startRound gm) = startRound (selectedBoosterType gm \<noteq> None) (economy gm)
     \<and> 0 \<le> balance (economy (Game_startRound gm))"
  by (simp add: Game_startRound_def canAffordRound_def startRound_def Let_def)

lemma simulation_can_afford: "canAffordRound hasBooster (Economy_new 10000)"
  by (simp add: canAffordRound_def Economy_new_def BET_AMOUNT_def BOOSTER_COST_def)

text \<open>
  C8. When \<open>canAffordRound\<close> is false, \<open>Game.startRound\<close> returns before it touches
  anything: the game, and with it the balance, the round profit and the final profit, is
  what it was. (\<open>Economy.startRound\<close> itself deducts without a check, see
  \<open>startRound_deducts\<close>; the check is the caller's. The batch simulation calls it
  unchecked on a fresh balance of 10000, which is sufficient: \<open>simulation_can_afford\<close>.)
\<close>

theorem Game_startRound_insufficient_noop:
  "\<not> canAffordRound (selectedBoosterType gm \<noteq> None) (economy gm) \<Longrightarrow> Game_startRound gm = gm"
  by (simp add: Game_startRound_def)

theorem Game_startRound_insufficient_noop_witness:
  "\<not> canAffordRound (selectedBoosterType poorGame \<noteq> None) (economy poorGame)
   \<and> Game_startRound poorGame = poorGame \<and> balance (economy (Game_startRound poorGame)) = 5"
proof -
  have h: "\<not> canAffordRound (selectedBoosterType poorGame \<noteq> None) (economy poorGame)"
    by (simp add: poorGame_def canAffordRound_def Economy_new_def BET_AMOUNT_def)
  have "Game_startRound poorGame = poorGame"
    using Game_startRound_insufficient_noop [OF h] .
  moreover have "balance (economy poorGame) = 5"
    by (simp add: poorGame_def Economy_new_def)
  ultimately show ?thesis using h by simp
qed

section \<open>Combat: facts about the classifier, the cooldown table and the concrete duel\<close>

lemma sqrt_distSq_line: "sqrt (distSq ax y bx y) = \<bar>ax - bx\<bar>"
  by (simp add: distSq_def Let_def)

lemma facing_weapon:
  "weaponX (facing w right) = px w + side right"
  "weaponY (facing w right) = py w"
  by (simp_all add: facing_def updateWeaponPos_def WEAPON_OFFSET_def WARRIOR_RADIUS_def side_def)

lemma facing_fields:
  "idW (facing w right) = idW w" "px (facing w right) = px w" "py (facing w right) = py w"
  "vx (facing w right) = vx w" "vy (facing w right) = vy w" "hp (facing w right) = hp w"
  "alive (facing w right) = alive w" "dying (facing w right) = dying w"
  "boosterEffect (facing w right) = boosterEffect w"
  "rotationRad (facing w right) = (if right then 0 else pi)"
  by (simp_all add: facing_def updateWeaponPos_def)

lemma duel_fields:
  "idW (duel off0 off1 r) = (if r = 0 then 0 else 1)"
  "px (duel off0 off1 r) = (if r = 0 then 100 else 140)"
  "py (duel off0 off1 r) = 100"
  "weaponX (duel off0 off1 r) = (if r = 0 then 100 + side off0 else 140 + side off1)"
  "weaponY (duel off0 off1 r) = 100"
  by (simp_all add: duel_def facing_weapon facing_fields player0_def opponent1_def
      Warrior_new_def)

lemma duel_motion_fields:
  "vx (duel off0 off1 r) = (if r = 0 then 120 else - 120)"
  "vy (duel off0 off1 r) = 0"
  "rotationRad (duel off0 off1 0) = (if off0 then 0 else pi)"
  "alive (duel off0 off1 r)"
  "\<not> dying (duel off0 off1 r)"
  "hp (duel off0 off1 r) = 100"
  by (simp_all add: duel_def facing_fields player0_def opponent1_def Warrior_new_def)

lemma duel_boosterEffect: "boosterEffect (duel off0 off1 r) = NoEffect"
  by (simp add: duel_def facing_fields player0_def opponent1_def Warrior_new_def)

lemma duel_overlaps:
  "overlapWaBodyB (duel off0 off1 0) (duel off0 off1 (Suc 0)) = 30 - \<bar>side off0 - 40\<bar>"
  "overlapWbBodyA (duel off0 off1 0) (duel off0 off1 (Suc 0)) = 30 - \<bar>side off1 + 40\<bar>"
  "overlapWaWb (duel off0 off1 0) (duel off0 off1 (Suc 0)) = 16 - \<bar>side off0 - side off1 - 40\<bar>"
  by (simp_all add: overlapWaBodyB_def overlapWbBodyA_def overlapWaWb_def duel_fields
      sqrt_distSq_line WEAPON_RADIUS_def WARRIOR_RADIUS_def)

lemma classify_no_weapon_contact:
  "overlapWaBodyB wa wb \<le> 0 \<Longrightarrow> overlapWbBodyA wa wb \<le> 0 \<Longrightarrow> overlapWaWb wa wb \<le> 0 \<Longrightarrow>
     fst (classifyCollision wa wb params rng g) = \<lparr>rtype = body_body, attackerIsA = True\<rparr>"
  by (simp add: classifyCollision_def Let_def split_beta)

lemma classify_weapons_cross:
  "overlapWaBodyB wa wb < overlapWaWb wa wb \<Longrightarrow> overlapWbBodyA wa wb < overlapWaWb wa wb \<Longrightarrow>
   0 < overlapWaWb wa wb \<Longrightarrow>
     classifyCollision wa wb params rng g = (\<lparr>rtype = weapon_weapon, attackerIsA = True\<rparr>, g)"
  by (simp add: classifyCollision_def Let_def split_beta)

lemma draw45: "fst (Rng_next (Rng_new (Some 45) 0)) = 124758397 / 4294967296"
  by (simp add: Rng_next_def Rng_new_def Let_def)

lemma draw42: "fst (Rng_next (Rng_new (Some 42) 0)) = 2584728083 / 4294967296"
  by (simp add: Rng_next_def Rng_new_def Let_def)

lemma processCollision_throttled:
  "now - lastContact cd (pairKey (st (pair_a p)) (st (pair_b p))) < COOLDOWN_MS \<Longrightarrow>
     processCollision st p now params rng (cd, g) = ([], cd, g)"
  by (simp add: processCollision_def)

lemma processCollision_table:
  "fst (snd (processCollision st p now params rng (cd, g))) =
     (if now - lastContact cd (pairKey (st (pair_a p)) (st (pair_b p))) < COOLDOWN_MS then cd
      else cd(pairKey (st (pair_a p)) (st (pair_b p)) \<mapsto> now))"
  by (simp add: processCollision_def Let_def split_beta)

lemma processContact_throttled:
  "cnow c - lastContact (fst cg) (contactKey c) < COOLDOWN_MS \<Longrightarrow>
     fst (processContact rng c cg) = []"
  by (cases cg) (simp add: processContact_def contactKey_def processCollision_throttled)

lemma processContact_table:
  "fst (snd (processContact rng c cg)) =
     (if cnow c - lastContact (fst cg) (contactKey c) < COOLDOWN_MS then fst cg
      else (fst cg)(contactKey c \<mapsto> cnow c))"
  by (cases cg) (simp add: processContact_def contactKey_def processCollision_table)

lemma processContact_lastContact_mono:
  "lastContact (fst cg) k \<le> lastContact (fst (snd (processContact rng c cg))) k"
  by (simp add: processContact_table lastContact_def COOLDOWN_MS_def split: option.splits)

lemma processContacts_lastContact_mono:
  "lastContact (fst cg) k \<le> lastContact (fst (processContacts rng cs cg)) k"
proof (induction cs arbitrary: cg)
  case Nil
  show ?case by simp
next
  case (Cons c cs)
  have "lastContact (fst cg) k \<le> lastContact (fst (snd (processContact rng c cg))) k"
    by (rule processContact_lastContact_mono)
  also have "\<dots> \<le> lastContact (fst (processContacts rng cs (snd (processContact rng c cg)))) k"
    by (rule Cons.IH)
  finally show ?case by simp
qed

lemma processContact_recorded:
  "\<not> cnow c - lastContact (fst cg) (contactKey c) < COOLDOWN_MS \<Longrightarrow>
     lastContact (fst (snd (processContact rng c cg))) (contactKey c) = cnow c"
  by (simp add: processContact_table lastContact_def)

lemma throttled_after:
  assumes "contactKey c2 = contactKey c1"
    and "cnow c2 - cnow c1 < COOLDOWN_MS"
    and "\<not> cnow c1 - lastContact (fst cg) (contactKey c1) < COOLDOWN_MS"
  shows "fst (processContact rng c2 (processContacts rng between (snd (processContact rng c1 cg)))) = []"
proof -
  let ?cg1 = "snd (processContact rng c1 cg)"
  let ?cg2 = "processContacts rng between ?cg1"
  have "cnow c1 = lastContact (fst ?cg1) (contactKey c1)"
    using assms(3) by (simp add: processContact_recorded)
  also have "\<dots> \<le> lastContact (fst ?cg2) (contactKey c1)"
    by (rule processContacts_lastContact_mono)
  finally have "cnow c2 - lastContact (fst ?cg2) (contactKey c2) < COOLDOWN_MS"
    using assms(1,2) by simp
  then show ?thesis
    by (rule processContact_throttled)
qed


lemma js_round_bounds: "1 \<le> x \<Longrightarrow> x \<le> 25 \<Longrightarrow> 1 \<le> js_round x \<and> js_round x \<le> 25"
  by (simp add: js_round_def le_floor_iff floor_le_iff)

lemma classify_only_B_weapon_contact:
  assumes "overlapWaBodyB wa wb \<le> 0" and "0 < overlapWbBodyA wa wb" and "overlapWaWb wa wb \<le> 0"
  shows "fst (classifyCollision wa wb params rng g) =
     (if (isPlayer wa \<or> isPlayer wb) \<and> fst (rng g) < \<bar>playerWeaponAssist params\<bar>
           \<and> playerWeaponAssist params \<le> 0
      then \<lparr>rtype = body_body, attackerIsA = True\<rparr>
      else \<lparr>rtype = weapon_body, attackerIsA = False\<rparr>)"
  using assms by (auto simp add: classifyCollision_def Let_def split_beta)

lemma processCollision_body_contact:
  assumes "\<not> now - lastContact cd (pairKey (st (pair_a p)) (st (pair_b p))) < COOLDOWN_MS"
    and "overlapWaBodyB (st (pair_a p)) (st (pair_b p)) \<le> 0"
    and "overlapWbBodyA (st (pair_a p)) (st (pair_b p)) \<le> 0"
    and "overlapWaWb (st (pair_a p)) (st (pair_b p)) \<le> 0"
  shows "fst (processCollision st p now params rng (cd, g)) =
     [\<lparr>attacker = pair_a p, victim = pair_b p, etype = body_body,
       damage = js_round (max 1 (min 25 (10 + playerTakeDamageDelta params * 0.5)))\<rparr>,
      \<lparr>attacker = pair_b p, victim = pair_a p, etype = body_body,
       damage = js_round (max 1 (min 25 (10 + playerTakeDamageDelta params * 0.5)))\<rparr>]"
  using assms
  by (simp add: processCollision_def Let_def split_beta classify_no_weapon_contact)

lemma processCollision_weapons_cross:
  assumes "overlapWaBodyB (st (pair_a p)) (st (pair_b p)) < overlapWaWb (st (pair_a p)) (st (pair_b p))"
    and "overlapWbBodyA (st (pair_a p)) (st (pair_b p)) < overlapWaWb (st (pair_a p)) (st (pair_b p))"
    and "0 < overlapWaWb (st (pair_a p)) (st (pair_b p))"
  shows "fst (processCollision st p now params rng (cd, g)) = []"
  using assms
  by (simp add: processCollision_def Let_def split_beta classify_weapons_cross)

lemma duel_key:
  "pairKey (duel off0 off1 0) (duel off0 off1 (Suc 0)) = (0, 1)"
  "pairKey (duel off0 off1 (Suc 0)) (duel off0 off1 0) = (0, 1)"
  by (simp_all add: pairKey_def duel_fields)

lemma contactAt_key:
  "contactKey (contactAt off0 off1 pair01 t params) = (0, 1)"
  "contactKey (contactAt off0 off1 pair10 t params) = (0, 1)"
  by (simp_all add: contactKey_def contactAt_def pair01_def pair10_def duel_key)

section \<open>Combat: damage amounts\<close>

lemma processCollision_events:
  "fst (processCollision st p now params rng (cd, g)) =
     (if now - lastContact cd (pairKey (st (pair_a p)) (st (pair_b p))) < COOLDOWN_MS then []
      else if rtype (fst (classifyCollision (st (pair_a p)) (st (pair_b p)) params rng g)) = weapon_body
      then
        (if attackerIsA (fst (classifyCollision (st (pair_a p)) (st (pair_b p)) params rng g))
         then [\<lparr>attacker = pair_a p, victim = pair_b p, etype = weapon_body,
                 damage = (if isPlayer (st (pair_b p))
                   then max 1 (max 1 (min 40 (25 + playerDealBonusDamage params
                             * (if isPlayer (st (pair_a p)) then 1 else 0)))
                           + playerTakeDamageDelta params)
                   else max 1 (min 40 (25 + playerDealBonusDamage params
                             * (if isPlayer (st (pair_a p)) then 1 else 0))))\<rparr>]
         else [\<lparr>attacker = pair_b p, victim = pair_a p, etype = weapon_body,
                 damage = (if isPlayer (st (pair_a p))
                   then max 1 (max 1 (min 40 (25 + playerDealBonusDamage params
                             * (if isPlayer (st (pair_b p)) then 1 else 0)))
                           + playerTakeDamageDelta params)
                   else max 1 (min 40 (25 + playerDealBonusDamage params
                             * (if isPlayer (st (pair_b p)) then 1 else 0))))\<rparr>])
      else if rtype (fst (classifyCollision (st (pair_a p)) (st (pair_b p)) params rng g)) = body_body
      then [\<lparr>attacker = pair_a p, victim = pair_b p, etype = body_body,
              damage = js_round (max 1 (min 25 (10 + playerTakeDamageDelta params * 0.5)))\<rparr>,
            \<lparr>attacker = pair_b p, victim = pair_a p, etype = body_body,
              damage = js_round (max 1 (min 25 (10 + playerTakeDamageDelta params * 0.5)))\<rparr>]
      else [])"
  by (simp add: processCollision_def Let_def split_beta)

lemma weapon_damage_bounds:
  fixes x delta :: real
  defines "d \<equiv> (\<lambda>vp. if vp then max 1 (max 1 (min 40 x) + delta) else max 1 (min 40 x))"
  shows "1 \<le> d vp \<and> (if vp then d vp \<le> max 40 (40 + delta) else d vp \<le> 40)"
  by (cases vp) (simp_all add: d_def max_def min_def)

lemma processCollision_damage_bounds:
  assumes "ev \<in> set (fst (processCollision st p now params rng (cd, g)))"
  shows "1 \<le> damage ev
     \<and> (etype ev = body_body \<or> etype ev = weapon_body)
     \<and> (if etype ev = body_body then damage ev \<le> 25
         else if isPlayer (st (victim ev)) then damage ev \<le> max 40 (40 + playerTakeDamageDelta params)
         else damage ev \<le> 40)"
proof -
  let ?res = "fst (classifyCollision (st (pair_a p)) (st (pair_b p)) params rng g)"
  let ?delta = "playerTakeDamageDelta params"
  let ?x = "\<lambda>r. 25 + playerDealBonusDamage params * (if isPlayer (st r) then 1 else 0)"
  let ?d = "\<lambda>r vp. if vp then max 1 (max 1 (min 40 (?x r)) + ?delta) else max 1 (min 40 (?x r))"
  let ?bd = "js_round (max 1 (min 25 (10 + ?delta * 0.5)))"
  have b: "1 \<le> ?bd \<and> ?bd \<le> 25"
    by (rule js_round_bounds) simp_all
  have w: "1 \<le> ?d r vp \<and> (if vp then ?d r vp \<le> max 40 (40 + ?delta) else ?d r vp \<le> 40)"
    for r vp
    by (rule weapon_damage_bounds)
  from assms have nt: "\<not> now - lastContact cd (pairKey (st (pair_a p)) (st (pair_b p))) < COOLDOWN_MS"
    by (auto simp add: processCollision_throttled)
  consider (wa) "rtype ?res = weapon_body" "attackerIsA ?res"
    | (wb) "rtype ?res = weapon_body" "\<not> attackerIsA ?res"
    | (bb) "rtype ?res = body_body"
    | (no) "rtype ?res \<noteq> weapon_body" "rtype ?res \<noteq> body_body"
    by blast
  then show ?thesis
  proof cases
    case wa
    with assms nt have "ev = \<lparr>attacker = pair_a p, victim = pair_b p, etype = weapon_body,
        damage = ?d (pair_a p) (isPlayer (st (pair_b p)))\<rparr>"
      by (simp add: processCollision_events)
    then show ?thesis
      using w [where r = "pair_a p" and vp = "isPlayer (st (pair_b p))"] by (simp del: max.bounded_iff min.bounded_iff split: if_splits)
  next
    case wb
    with assms nt have "ev = \<lparr>attacker = pair_b p, victim = pair_a p, etype = weapon_body,
        damage = ?d (pair_b p) (isPlayer (st (pair_a p)))\<rparr>"
      by (simp add: processCollision_events)
    then show ?thesis
      using w [where r = "pair_b p" and vp = "isPlayer (st (pair_a p))"] by (simp del: max.bounded_iff min.bounded_iff split: if_splits)
  next
    case bb
    with assms nt have "etype ev = body_body \<and> damage ev = ?bd"
      by (auto simp add: processCollision_events)
    then show ?thesis
      using b by simp
  next
    case no
    with assms nt show ?thesis
      by (simp add: processCollision_events)
  qed
qed

lemma weapon_damage_le_40:
  fixes bonus delta k :: real
  assumes "max 0 bonus + max 0 delta \<le> 15" and "k = 0 \<or> k = 1"
  shows "max 1 (min 40 (25 + bonus * k)) \<le> 40"
    and "max 1 (max 1 (min 40 (25 + bonus * k)) + delta) \<le> 40"
  using assms by (auto simp add: max_def min_def split: if_splits)

lemma processCollision_damage_le_40:
  assumes "ev \<in> set (fst (processCollision st p now params rng (cd, g)))"
    and "max 0 (playerDealBonusDamage params) + max 0 (playerTakeDamageDelta params) \<le> 15"
  shows "damage ev \<le> 40"
proof -
  let ?res = "fst (classifyCollision (st (pair_a p)) (st (pair_b p)) params rng g)"
  let ?k = "\<lambda>r. if isPlayer (st r) then 1 else 0 :: real"
  note w = weapon_damage_le_40 [OF assms(2), of "?k r" for r]
  from assms(1) have nt: "\<not> now - lastContact cd (pairKey (st (pair_a p)) (st (pair_b p))) < COOLDOWN_MS"
    by (auto simp add: processCollision_throttled)
  from processCollision_damage_bounds [OF assms(1)]
  consider (bb) "etype ev = body_body" "damage ev \<le> 25" | (wb) "etype ev = weapon_body"
    by (auto split: if_splits)
  then show ?thesis
  proof cases
    case bb
    then show ?thesis by simp
  next
    case wb
    with assms(1) nt have "damage ev \<in> {max 1 (min 40 (25 + playerDealBonusDamage params * ?k r)) | r. True}
        \<union> {max 1 (max 1 (min 40 (25 + playerDealBonusDamage params * ?k r)) + playerTakeDamageDelta params) | r. True}"
      by (auto simp add: processCollision_events split: if_splits)
    then show ?thesis
      using w by auto
  qed
qed

lemma preset_damage_le_40:
  assumes "ev \<in> set (fst (processCollision st p now params rng (cd, g)))"
    and "params = WIN_PARAMS \<or> params = LOSE_PARAMS \<or> params = NEUTRAL_PARAMS"
  shows "damage ev \<le> 40"
  using assms(2)
  by (intro processCollision_damage_le_40 [OF assms(1)])
    (auto simp add: WIN_PARAMS_def LOSE_PARAMS_def NEUTRAL_PARAMS_def)

lemma bodyContact_events:
  "fst (processContact Rng_next (contactAt False True pair01 1000 LOSE_PARAMS)
          (Map.empty, Rng_new (Some 42) 0))
     = [\<lparr>attacker = 0, victim = 1, etype = body_body, damage = 11\<rparr>,
        \<lparr>attacker = 1, victim = 0, etype = body_body, damage = 11\<rparr>]"
proof -
  have "fst (processCollision (duel False True) pair01 1000 LOSE_PARAMS Rng_next
            (Map.empty, Rng_new (Some 42) 0))
       = [\<lparr>attacker = pair_a pair01, victim = pair_b pair01, etype = body_body,
            damage = js_round (max 1 (min 25 (10 + playerTakeDamageDelta LOSE_PARAMS * 0.5)))\<rparr>,
          \<lparr>attacker = pair_b pair01, victim = pair_a pair01, etype = body_body,
            damage = js_round (max 1 (min 25 (10 + playerTakeDamageDelta LOSE_PARAMS * 0.5)))\<rparr>]"
    by (rule processCollision_body_contact)
      (simp_all add: pair01_def duel_key duel_overlaps side_def lastContact_def COOLDOWN_MS_def)
  then show ?thesis
    by (simp add: processContact_def contactAt_def pair01_def LOSE_PARAMS_def js_round_def)
qed

lemma weaponsCross_events:
  "fst (processContact rng (contactAt True False pair01 t params) (cd, g)) = []"
  unfolding processContact_def contactAt_def
  by (simp add: pair01_def processCollision_weapons_cross duel_overlaps side_def)

text \<open>
  C3. The claim is that a body-to-body contact gives two events, and that half of
  \<open>playerTakeDamageDelta\<close> is added to the base of 10 only in the event whose victim is
  the player. The code computes one amount, with the delta in it, and gives it to both
  events. With the losing parameters (delta 2) the event whose victim is the opponent,
  not the player, carries 11 where the claim says 10. The weapon-hit branch of the same
  function does guard the delta with \<open>victim.isPlayer\<close>, and the parameter is documented
  as the extra damage the player takes.
\<close>

theorem body_body_delta_for_every_victim:
  "\<not> isPlayer (duel False True 1)
   \<and> fst (processCollision (duel False True) pair01 1000 LOSE_PARAMS Rng_next
            (Map.empty, Rng_new (Some 42) 0))
       = [\<lparr>attacker = 0, victim = 1, etype = body_body, damage = 11\<rparr>,
          \<lparr>attacker = 1, victim = 0, etype = body_body, damage = 11\<rparr>]"
proof -
  have "fst (processCollision (duel False True) pair01 1000 LOSE_PARAMS Rng_next
            (Map.empty, Rng_new (Some 42) 0))
       = [\<lparr>attacker = pair_a pair01, victim = pair_b pair01, etype = body_body,
            damage = js_round (max 1 (min 25 (10 + playerTakeDamageDelta LOSE_PARAMS * 0.5)))\<rparr>,
          \<lparr>attacker = pair_b pair01, victim = pair_a pair01, etype = body_body,
            damage = js_round (max 1 (min 25 (10 + playerTakeDamageDelta LOSE_PARAMS * 0.5)))\<rparr>]"
    by (rule processCollision_body_contact)
      (simp_all add: pair01_def duel_key duel_overlaps side_def lastContact_def COOLDOWN_MS_def)
  then show ?thesis
    by (simp add: pair01_def LOSE_PARAMS_def js_round_def duel_isPlayer)
qed

text \<open>
  C5. The claim is that every weapon hit has a damage in [1, 40] and every body-to-body
  event a damage in [1, 25]. The code clamps the weapon hit to [1, 40] before it adds the
  victim's delta, and after the addition it only restores the lower bound: a hit on the
  player with a delta of 20 carries 45. (With the three presets of the controller no
  damage exceeds 40, \<open>preset_damage_le_40\<close>; what holds for all parameters is in
  \<open>processCollision_damage_bounds\<close>.)
\<close>

theorem weapon_hit_above_40:
  "isPlayer (duel False False 0)
   \<and> fst (processCollision (duel False False) pair01 1000
            (NEUTRAL_PARAMS\<lparr>playerTakeDamageDelta := 20\<rparr>) Rng_next
            (Map.empty, Rng_new (Some 42) 0))
       = [\<lparr>attacker = 1, victim = 0, etype = weapon_body, damage = 45\<rparr>]"
proof -
  have "fst (classifyCollision (duel False False 0) (duel False False (Suc 0))
          (NEUTRAL_PARAMS\<lparr>playerTakeDamageDelta := 20\<rparr>) Rng_next (Rng_new (Some 42) 0))
        = \<lparr>rtype = weapon_body, attackerIsA = False\<rparr>"
    by (simp add: classify_only_B_weapon_contact duel_overlaps side_def draw42 NEUTRAL_PARAMS_def)
  then show ?thesis
    by (simp add: processCollision_def Let_def split_beta pair01_def duel_key lastContact_def
        COOLDOWN_MS_def duel_isPlayer NEUTRAL_PARAMS_def)
qed


section \<open>Combat: what the classifier returns\<close>

text \<open>
  C6, as the code has it. When only the weapon of A touches the body of B (that overlap is
  positive, the other two are not), the classifier returns a weapon hit with A as the
  attacker, except in one case: the pair involves the player, the weapon-assist bias is
  not positive, and the number drawn is below the absolute value of the bias. Then the
  classifier returns body-to-body (the nudge away from weapon hits).
\<close>

theorem classify_only_A_weapon_contact:
  assumes "0 < overlapWaBodyB wa wb" and "overlapWbBodyA wa wb \<le> 0" and "overlapWaWb wa wb \<le> 0"
  shows "fst (classifyCollision wa wb params rng g) =
     (if (isPlayer wa \<or> isPlayer wb) \<and> fst (rng g) < \<bar>playerWeaponAssist params\<bar>
           \<and> playerWeaponAssist params \<le> 0
      then \<lparr>rtype = body_body, attackerIsA = True\<rparr>
      else \<lparr>rtype = weapon_body, attackerIsA = True\<rparr>)"
  using assms by (auto simp add: classifyCollision_def Let_def split_beta)

theorem classify_only_A_weapon_contact_witness:
  "0 < overlapWaBodyB (duel True True 0) (duel True True 1)
   \<and> overlapWbBodyA (duel True True 0) (duel True True 1) \<le> 0
   \<and> overlapWaWb (duel True True 0) (duel True True 1) \<le> 0
   \<and> fst (classifyCollision (duel True True 0) (duel True True 1) LOSE_PARAMS Rng_next
             (Rng_new (Some 42) 0))
       = \<lparr>rtype = weapon_body, attackerIsA = True\<rparr>"
proof -
  have h: "0 < overlapWaBodyB (duel True True 0) (duel True True 1)"
    "overlapWbBodyA (duel True True 0) (duel True True 1) \<le> 0"
    "overlapWaWb (duel True True 0) (duel True True 1) \<le> 0"
    by (simp_all add: duel_overlaps side_def)
  show ?thesis
    using h classify_only_A_weapon_contact [OF h, of LOSE_PARAMS Rng_next "Rng_new (Some 42) 0"]
    by (simp add: draw42 LOSE_PARAMS_def)
qed

text \<open>
  C6 as stated, without the exception, fails: the player's weapon touches the
  opponent's body and nothing else touches, the parameters are the losing preset (bias
  -0.07) and the generator seeded with 45 draws 0.029; the classifier returns
  body-to-body.
\<close>

theorem classify_only_A_weapon_contact_counterexample:
  "0 < overlapWaBodyB (duel True True 0) (duel True True 1)
   \<and> overlapWbBodyA (duel True True 0) (duel True True 1) \<le> 0
   \<and> overlapWaWb (duel True True 0) (duel True True 1) \<le> 0
   \<and> fst (classifyCollision (duel True True 0) (duel True True 1) LOSE_PARAMS Rng_next
             (Rng_new (Some 45) 0))
       = \<lparr>rtype = body_body, attackerIsA = True\<rparr>"
  by (simp add: classifyCollision_def Let_def split_beta duel_overlaps side_def draw45 LOSE_PARAMS_def
      duel_isPlayer)

section \<open>Combat: the cooldown of a pair\<close>

text \<open>
  C4. Take any state of the cooldown table and of the generator, a first call of
  \<open>processCollision\<close>, any calls after it, and a second call for the same unordered pair
  of ids at a time less than 120 ms after the time of the first (a second time before
  the first is included). Then at most one of the two calls returns events. The table
  is not cleared between the two calls: \<open>clearCooldowns\<close> runs at the start of a round.
\<close>

theorem cooldown_enforcement:
  assumes "contactKey c2 = contactKey c1" and "cnow c2 - cnow c1 < COOLDOWN_MS"
  shows "fst (processContact rng c1 cg) = []
     \<or> fst (processContact rng c2
              (processContacts rng between (snd (processContact rng c1 cg)))) = []"
proof (cases "cnow c1 - lastContact (fst cg) (contactKey c1) < COOLDOWN_MS")
  case True
  then show ?thesis by (simp add: processContact_throttled)
next
  case False
  with assms show ?thesis by (simp add: throttled_after)
qed

theorem cooldown_enforcement_witness:
  "contactKey (contactAt False True pair10 1050 LOSE_PARAMS)
     = contactKey (contactAt False True pair01 1000 LOSE_PARAMS)
   \<and> cnow (contactAt False True pair10 1050 LOSE_PARAMS)
        - cnow (contactAt False True pair01 1000 LOSE_PARAMS) < COOLDOWN_MS
   \<and> fst (processContact Rng_next (contactAt False True pair01 1000 LOSE_PARAMS)
             (Map.empty, Rng_new (Some 42) 0)) \<noteq> []
   \<and> fst (processContact Rng_next (contactAt False True pair10 1050 LOSE_PARAMS)
            (processContacts Rng_next [contactAt True True pair01 1016 LOSE_PARAMS]
               (snd (processContact Rng_next (contactAt False True pair01 1000 LOSE_PARAMS)
                       (Map.empty, Rng_new (Some 42) 0))))) = []"
proof -
  let ?c1 = "contactAt False True pair01 1000 LOSE_PARAMS"
  let ?c2 = "contactAt False True pair10 1050 LOSE_PARAMS"
  have k: "contactKey ?c2 = contactKey ?c1"
    by (simp add: contactAt_key)
  have t: "cnow ?c2 - cnow ?c1 < COOLDOWN_MS"
    by (simp add: contactAt_def COOLDOWN_MS_def)
  have n: "fst (processContact Rng_next ?c1 (Map.empty, Rng_new (Some 42) 0)) \<noteq> []"
    using bodyContact_events by simp
  show ?thesis
    using k t n
      cooldown_enforcement [OF k t, of Rng_next "(Map.empty, Rng_new (Some 42) 0)"
        "[contactAt True True pair01 1016 LOSE_PARAMS]"]
    by simp
qed

text \<open>
  C10. A call that passes the cooldown writes its time into the table before the pair is
  classified, whatever the classification gives. A later call for the same pair, less
  than 120 ms after it, returns no events, also when the first call returned none (in
  the instance below the first contact is weapon against weapon).
\<close>

theorem cooldown_consumed_without_events:
  assumes "contactKey c2 = contactKey c1"
    and "\<not> cnow c1 - lastContact (fst cg) (contactKey c1) < COOLDOWN_MS"
    and "cnow c2 - cnow c1 < COOLDOWN_MS"
  shows "fst (snd (processContact rng c1 cg)) (contactKey c1) = Some (cnow c1)
     \<and> fst (processContact rng c2
              (processContacts rng between (snd (processContact rng c1 cg)))) = []"
  using assms by (simp add: throttled_after processContact_table)

theorem cooldown_consumed_without_events_witness:
  "contactKey (contactAt False True pair01 1100 LOSE_PARAMS)
     = contactKey (contactAt True False pair01 1000 LOSE_PARAMS)
   \<and> \<not> cnow (contactAt True False pair01 1000 LOSE_PARAMS)
          - lastContact (fst (Map.empty, Rng_new (Some 42) 0))
              (contactKey (contactAt True False pair01 1000 LOSE_PARAMS)) < COOLDOWN_MS
   \<and> cnow (contactAt False True pair01 1100 LOSE_PARAMS)
        - cnow (contactAt True False pair01 1000 LOSE_PARAMS) < COOLDOWN_MS
   \<and> fst (processContact Rng_next (contactAt True False pair01 1000 LOSE_PARAMS)
             (Map.empty, Rng_new (Some 42) 0)) = []
   \<and> fst (processContact Rng_next (contactAt False True pair01 1100 LOSE_PARAMS)
            (processContacts Rng_next []
               (snd (processContact Rng_next (contactAt True False pair01 1000 LOSE_PARAMS)
                       (Map.empty, Rng_new (Some 42) 0))))) = []"
proof -
  let ?c1 = "contactAt True False pair01 1000 LOSE_PARAMS"
  let ?c2 = "contactAt False True pair01 1100 LOSE_PARAMS"
  let ?cg = "(Map.empty, Rng_new (Some 42) 0) :: cooldowns \<times> Rng"
  have k: "contactKey ?c2 = contactKey ?c1"
    by (simp add: contactAt_key)
  have p: "\<not> cnow ?c1 - lastContact (fst ?cg) (contactKey ?c1) < COOLDOWN_MS"
    by (simp add: contactAt_key lastContact_def contactAt_def COOLDOWN_MS_def)
  have t: "cnow ?c2 - cnow ?c1 < COOLDOWN_MS"
    by (simp add: contactAt_def COOLDOWN_MS_def)
  have e: "fst (processContact Rng_next ?c1 ?cg) = []"
    by (rule weaponsCross_events)
  show ?thesis
    using k p t e cooldown_consumed_without_events [OF k p t, of Rng_next "[]"]
    by simp
qed


section \<open>Combat: boosters\<close>

lemma applyLoop_acc:
  "applyLoop evs (acc, st) = (acc @ fst (applyLoop evs ([], st)), snd (applyLoop evs ([], st)))"
proof (induction evs arbitrary: acc st)
  case Nil
  show ?case by simp
next
  case (Cons ev evs)
  show ?case
  proof (cases "isPlayer (st (victim ev)) \<and> boosterEffect (st (victim ev)) = Shield")
    case True
    define st' where "st' = st(victim ev := (st (victim ev))\<lparr>boosterEffect := NoEffect\<rparr>)"
    from True have "applyLoop (ev # evs) (acc, st) = applyLoop evs (acc, st')"
      and "applyLoop (ev # evs) ([], st) = applyLoop evs ([], st')"
      by (simp_all add: st'_def)
    then show ?thesis
      using Cons.IH [of acc st'] by simp
  next
    case False
    define gl where "gl = (isPlayer (st (attacker ev)) \<and> boosterEffect (st (attacker ev)) = Glove
                     \<and> etype ev = weapon_body)"
    define dmg where "dmg = (if gl then damage ev + 10 else damage ev)"
    define st1 where "st1 = (if gl then st(attacker ev := (st (attacker ev))\<lparr>boosterEffect := NoEffect\<rparr>)
                    else st)"
    define st2 where "st2 = st1(victim ev := takeDamage dmg (st1 (victim ev)))"
    from False have "applyLoop (ev # evs) (acc, st) = applyLoop evs (acc @ [ev\<lparr>damage := dmg\<rparr>], st2)"
      and "applyLoop (ev # evs) ([], st) = applyLoop evs ([ev\<lparr>damage := dmg\<rparr>], st2)"
      by (auto simp add: gl_def dmg_def st1_def st2_def Let_def)
    then show ?thesis
      using Cons.IH [of "acc @ [ev\<lparr>damage := dmg\<rparr>]" st2] Cons.IH [of "[ev\<lparr>damage := dmg\<rparr>]" st2]
      by simp
  qed
qed

lemma applyDamageEvents_shielded:
  assumes "isPlayer (st (victim ev))" and "boosterEffect (st (victim ev)) = Shield"
  shows "applyDamageEvents (ev # evs) st =
     applyDamageEvents evs (st(victim ev := (st (victim ev))\<lparr>boosterEffect := NoEffect\<rparr>))"
  using assms by (simp add: applyDamageEvents_def)

lemma applyDamageEvents_gloved:
  assumes "isPlayer (st (attacker ev))" and "boosterEffect (st (attacker ev)) = Glove"
    and "etype ev = weapon_body"
    and "\<not> (isPlayer (st (victim ev)) \<and> boosterEffect (st (victim ev)) = Shield)"
  shows "applyDamageEvents (ev # evs) st =
     (let st1 = st(attacker ev := (st (attacker ev))\<lparr>boosterEffect := NoEffect\<rparr>);
          st2 = st1(victim ev := takeDamage (damage ev + 10) (st1 (victim ev)))
      in (ev\<lparr>damage := damage ev + 10\<rparr> # fst (applyDamageEvents evs st2),
          snd (applyDamageEvents evs st2)))"
proof -
  define st1 where "st1 = st(attacker ev := (st (attacker ev))\<lparr>boosterEffect := NoEffect\<rparr>)"
  define st2 where "st2 = st1(victim ev := takeDamage (damage ev + 10) (st1 (victim ev)))"
  from assms have "applyLoop (ev # evs) ([], st) = applyLoop evs ([ev\<lparr>damage := damage ev + 10\<rparr>], st2)"
    by (auto simp add: st1_def st2_def Let_def)
  then show ?thesis
    using applyLoop_acc [of evs "[ev\<lparr>damage := damage ev + 10\<rparr>]" st2]
    by (simp add: applyDamageEvents_def st1_def st2_def Let_def)
qed

lemma applyDamageEvents_plain:
  assumes "\<not> (isPlayer (st (victim ev)) \<and> boosterEffect (st (victim ev)) = Shield)"
    and "\<not> (isPlayer (st (attacker ev)) \<and> boosterEffect (st (attacker ev)) = Glove
             \<and> etype ev = weapon_body)"
  shows "applyDamageEvents (ev # evs) st =
     (let st2 = st(victim ev := takeDamage (damage ev) (st (victim ev)))
      in (ev # fst (applyDamageEvents evs st2), snd (applyDamageEvents evs st2)))"
proof -
  define st2 where "st2 = st(victim ev := takeDamage (damage ev) (st (victim ev)))"
  from assms have "applyLoop (ev # evs) ([], st) = applyLoop evs ([ev], st2)"
    by (auto simp add: st2_def Let_def)
  then show ?thesis
    using applyLoop_acc [of evs "[ev]" st2]
    by (simp add: applyDamageEvents_def st2_def Let_def)
qed

lemma healHP_cap: "hp (healHP amount w) \<le> 100"
  by (simp add: healHP_def)

lemma one_player_not_shielded:
  assumes "boosterEffect (st (attacker ev)) = Glove"
    and "isPlayer (st (victim ev)) \<Longrightarrow> victim ev = attacker ev"
  shows "\<not> (isPlayer (st (victim ev)) \<and> boosterEffect (st (victim ev)) = Shield)"
  using assms by auto

text \<open>
  C7. In \<open>applyDamageEvents\<close>:
  \<^item> an event whose victim is the player holding a shield is dropped: the call goes on with
    the remaining events in a store that differs only in the victim's effect, now none
    (health as it was, nothing added to the applied list), so the next event against the
    player is applied;
  \<^item> a weapon hit whose attacker is the player holding a glove is applied with 10 more
    damage, and the remaining events run with the attacker's effect none. The player is
    one warrior: a victim that is the player is the attacker itself. (The shield rule
    comes first in the code; with one player a glove in the attacker's hand excludes
    it, \<open>one_player_not_shielded\<close>.)
  \<^item> after \<open>healHP\<close> the health is at most 100.
\<close>

theorem booster_semantics:
  "(isPlayer (st (victim ev)) \<and> boosterEffect (st (victim ev)) = Shield \<longrightarrow>
      applyDamageEvents (ev # evs) st =
        applyDamageEvents evs (st(victim ev := (st (victim ev))\<lparr>boosterEffect := NoEffect\<rparr>))
      \<and> applyDamageEvents [ev] st =
          ([], st(victim ev := (st (victim ev))\<lparr>boosterEffect := NoEffect\<rparr>)))
   \<and> (isPlayer (st' (attacker ev')) \<and> boosterEffect (st' (attacker ev')) = Glove
        \<and> etype ev' = weapon_body
        \<and> (isPlayer (st' (victim ev')) \<longrightarrow> victim ev' = attacker ev') \<longrightarrow>
      applyDamageEvents (ev' # evs') st' =
        (let st1 = st'(attacker ev' := (st' (attacker ev'))\<lparr>boosterEffect := NoEffect\<rparr>);
             st2 = st1(victim ev' := takeDamage (damage ev' + 10) (st1 (victim ev')))
         in (ev'\<lparr>damage := damage ev' + 10\<rparr> # fst (applyDamageEvents evs' st2),
             snd (applyDamageEvents evs' st2))))
   \<and> hp (healHP amount w) \<le> 100"
proof (intro conjI impI)
  assume "isPlayer (st (victim ev)) \<and> boosterEffect (st (victim ev)) = Shield"
  then show "applyDamageEvents (ev # evs) st =
        applyDamageEvents evs (st(victim ev := (st (victim ev))\<lparr>boosterEffect := NoEffect\<rparr>))"
    and "applyDamageEvents [ev] st =
          ([], st(victim ev := (st (victim ev))\<lparr>boosterEffect := NoEffect\<rparr>))"
    by (simp_all add: applyDamageEvents_def)
next
  assume a: "isPlayer (st' (attacker ev')) \<and> boosterEffect (st' (attacker ev')) = Glove
        \<and> etype ev' = weapon_body
        \<and> (isPlayer (st' (victim ev')) \<longrightarrow> victim ev' = attacker ev')"
  then have "\<not> (isPlayer (st' (victim ev')) \<and> boosterEffect (st' (victim ev')) = Shield)"
    by (intro one_player_not_shielded) simp_all
  with a show "applyDamageEvents (ev' # evs') st' =
        (let st1 = st'(attacker ev' := (st' (attacker ev'))\<lparr>boosterEffect := NoEffect\<rparr>);
             st2 = st1(victim ev' := takeDamage (damage ev' + 10) (st1 (victim ev')))
         in (ev'\<lparr>damage := damage ev' + 10\<rparr> # fst (applyDamageEvents evs' st2),
             snd (applyDamageEvents evs' st2)))"
    by (intro applyDamageEvents_gloved) simp_all
next
  show "hp (healHP amount w) \<le> 100"
    by (rule healHP_cap)
qed

theorem booster_semantics_witness:
  "(isPlayer (shielded (victim opponentHit)) \<and> boosterEffect (shielded (victim opponentHit)) = Shield)
   \<and> fst (applyDamageEvents [opponentHit] shielded) = []
   \<and> hp (snd (applyDamageEvents [opponentHit] shielded) 0) = 100
   \<and> boosterEffect (snd (applyDamageEvents [opponentHit] shielded) 0) = NoEffect
   \<and> fst (applyDamageEvents [opponentHit, opponentHit] shielded) = [opponentHit]
   \<and> hp (snd (applyDamageEvents [opponentHit, opponentHit] shielded) 0) = 73
   \<and> (isPlayer (gloved (attacker playerHitEv)) \<and> boosterEffect (gloved (attacker playerHitEv)) = Glove
        \<and> etype playerHitEv = weapon_body
        \<and> \<not> isPlayer (gloved (victim playerHitEv)))
   \<and> map damage (fst (applyDamageEvents [playerHitEv, playerHitEv] gloved)) = [36, 26]
   \<and> hp (snd (applyDamageEvents [playerHitEv, playerHitEv] gloved) 1) = 38
   \<and> boosterEffect (snd (applyDamageEvents [playerHitEv, playerHitEv] gloved) 0) = NoEffect
   \<and> hp (healHP 10 ((duel True True 0)\<lparr>hp := 95\<rparr>)) = 100"
proof -
  have s: "isPlayer (shielded (victim opponentHit)) \<and> boosterEffect (shielded (victim opponentHit)) = Shield"
    by (simp add: shielded_def applyBooster_def opponentHit_def duel_isPlayer)
  have g: "isPlayer (gloved (attacker playerHitEv)) \<and> boosterEffect (gloved (attacker playerHitEv)) = Glove
        \<and> etype playerHitEv = weapon_body
        \<and> \<not> isPlayer (gloved (victim playerHitEv))"
    by (simp add: gloved_def applyBooster_def playerHitEv_def duel_isPlayer)
  note b = booster_semantics [of shielded opponentHit _ gloved playerHitEv "[playerHitEv]" 10
      "(duel True True 0)\<lparr>hp := 95\<rparr>"]
  from b [of "[]"] s have s1: "applyDamageEvents [opponentHit] shielded =
      ([], shielded(victim opponentHit := (shielded (victim opponentHit))\<lparr>boosterEffect := NoEffect\<rparr>))"
    by blast
  from b [of "[opponentHit]"] s have s2: "applyDamageEvents [opponentHit, opponentHit] shielded =
      applyDamageEvents [opponentHit]
        (shielded(victim opponentHit := (shielded (victim opponentHit))\<lparr>boosterEffect := NoEffect\<rparr>))"
    by blast
  from b [of "[]"] g have g1: "applyDamageEvents [playerHitEv, playerHitEv] gloved =
        (let st1 = gloved(attacker playerHitEv := (gloved (attacker playerHitEv))\<lparr>boosterEffect := NoEffect\<rparr>);
             st2 = st1(victim playerHitEv := takeDamage (damage playerHitEv + 10) (st1 (victim playerHitEv)))
         in (playerHitEv\<lparr>damage := damage playerHitEv + 10\<rparr> # fst (applyDamageEvents [playerHitEv] st2),
             snd (applyDamageEvents [playerHitEv] st2)))"
    by blast
  have h: "hp (healHP 10 ((duel True True 0)\<lparr>hp := 95\<rparr>)) = 100"
    by (simp add: healHP_def)
  have e1: "fst (applyDamageEvents [opponentHit] shielded) = []"
    "hp (snd (applyDamageEvents [opponentHit] shielded) 0) = 100"
    "boosterEffect (snd (applyDamageEvents [opponentHit] shielded) 0) = NoEffect"
    unfolding s1 by (simp_all add: shielded_def applyBooster_def opponentHit_def duel_motion_fields)
  have e2: "fst (applyDamageEvents [opponentHit, opponentHit] shielded) = [opponentHit]"
    "hp (snd (applyDamageEvents [opponentHit, opponentHit] shielded) 0) = 73"
    unfolding s2
    by (simp_all add: applyDamageEvents_def shielded_def applyBooster_def opponentHit_def
        takeDamage_def duel_motion_fields duel_isPlayer Let_def)
  have e3: "map damage (fst (applyDamageEvents [playerHitEv, playerHitEv] gloved)) = [36, 26]"
    "hp (snd (applyDamageEvents [playerHitEv, playerHitEv] gloved) 1) = 38"
    "boosterEffect (snd (applyDamageEvents [playerHitEv, playerHitEv] gloved) 0) = NoEffect"
    unfolding g1
    by (simp_all add: applyDamageEvents_def gloved_def applyBooster_def playerHitEv_def
        takeDamage_def duel_motion_fields duel_isPlayer duel_boosterEffect Let_def)
  show ?thesis
    using s g e1 e2 e3 h by blast
qed

section \<open>Physics: integrateMotion\<close>

lemma integrateMotion_notin:
  "r \<notin> set rs \<Longrightarrow> integrateMotion rs dt st r = st r"
  by (induction rs arbitrary: st) auto

lemma integrateMotion_distinct:
  "distinct rs \<Longrightarrow>
     integrateMotion rs dt st r = (if r \<in> set rs then integrateOne dt (st r) else st r)"
proof (induction rs arbitrary: st)
  case Nil
  show ?case by simp
next
  case (Cons x xs)
  then have d: "distinct xs" and nx: "x \<notin> set xs"
    by simp_all
  show ?case
  proof (cases "r = x")
    case True
    with nx show ?thesis by (simp add: integrateMotion_notin)
  next
    case False
    then show ?thesis by (simp add: Cons.IH [OF d])
  qed
qed

lemma integrateMotion_of_driver:
  assumes "\<not> alive (st r) \<or> dying (st r)"
  shows "integrateMotion (aliveNotDying ws st) dt st r = st r"
proof -
  from assms have "r \<notin> set (aliveNotDying ws st)"
    by (auto simp add: aliveNotDying_def)
  then show ?thesis
    by (rule integrateMotion_notin)
qed

text \<open>
  C9, as the code has it. For a list that names each warrior once, \<open>integrateMotion\<close>
  moves every listed warrior that is alive, dying or not, by velocity times \<open>dt\<close> and
  recomputes its weapon position from the new position; nothing else of it changes,
  the velocity included. A warrior that is dead, or not in the list, is unchanged. (The
  drivers pass the warriors that are alive and not dying, so that in a physics step the
  dying are not moved: \<open>integrateMotion_of_driver\<close>.)
\<close>

theorem integrateMotion_moves_the_living:
  assumes "distinct rs"
  shows "integrateMotion rs dt st r =
     (if r \<in> set rs \<and> alive (st r)
      then (st r)\<lparr>px := px (st r) + vx (st r) * dt,
                  py := py (st r) + vy (st r) * dt,
                  weaponX := px (st r) + vx (st r) * dt + cos (rotationRad (st r)) * WEAPON_OFFSET,
                  weaponY := py (st r) + vy (st r) * dt + sin (rotationRad (st r)) * WEAPON_OFFSET\<rparr>
      else st r)"
  using assms by (simp add: integrateMotion_distinct integrateOne_def updateWeaponPos_def)

theorem integrateMotion_moves_the_living_witness:
  "distinct [0, 1 :: wref]
   \<and> alive (opponentDead 0) \<and> \<not> alive (opponentDead 1)
   \<and> px (integrateMotion [0, 1] (1 / 60) opponentDead 0) = 102
   \<and> weaponX (integrateMotion [0, 1] (1 / 60) opponentDead 0) = 119.6
   \<and> vx (integrateMotion [0, 1] (1 / 60) opponentDead 0) = 120
   \<and> integrateMotion [0, 1] (1 / 60) opponentDead 1 = opponentDead 1"
proof -
  have d: "distinct [0, 1 :: wref]" by simp
  note m = integrateMotion_moves_the_living [OF d, of "1 / 60" opponentDead]
  show ?thesis
    using m [of 0] m [of 1]
    by (simp add: opponentDead_def duel_fields duel_motion_fields WEAPON_OFFSET_def
        WARRIOR_RADIUS_def)
qed

text \<open>
  C9 as stated exempts the dying as well, and that fails: the function tests
  \<open>alive\<close> only. A player felled by a hit (alive, dying) and passed to
  \<open>integrateMotion\<close> moves from 100 to 102.
\<close>

theorem integrateMotion_moves_the_dying:
  "alive (playerDying 0) \<and> dying (playerDying 0)
   \<and> px (playerDying 0) = 100
   \<and> px (integrateMotion [0] (1 / 60) playerDying 0) = 102"
  by (simp add: integrateOne_def updateWeaponPos_def playerDying_def takeDamage_def
      duel_fields duel_motion_fields)

end
